theory Spec2Isabelle
  imports Main "HOL-Library.Sublist"
begin

section \<open>Scene files with a naming convention: \<open>mayautils.SceneFile\<close>\<close>

text \<open>
  The module \<open>mayautils.py\<close> names scene files \<open>descriptor_vNNN.ext\<close>, reads the three
  fields back from the name of the scene that is open in the host application, saves
  through the host, and picks a new version number from the files of a folder.

  Strings are lists of 8-bit characters (code points below 256), Python's unbounded
  integers are \<open>int\<close>, an exception is a value \<open>Inl e\<close> of a sum type, and the host
  application (\<open>pymel.core\<close>) is a record of operations over a state of the world.
\<close>

subsection \<open>Exceptions\<close>

text \<open>
  The exceptions that can leave the module: \<open>RuntimeError\<close> with its message (raised by the
  constructor, and by the host when a save fails), \<open>ValueError\<close> from \<open>int(...)\<close>,
  \<open>IndexError\<close> from indexing a list, and \<open>OSError\<close> from the file system.
\<close>

datatype exn = RuntimeError string | ValueError | IndexError | OSError

text \<open>\<open>xs[i]\<close> for a literal index \<open>i \<ge> 0\<close>: raises \<open>IndexError\<close> out of range.\<close>

definition index :: "'a list \<Rightarrow> nat \<Rightarrow> exn + 'a" where
  "index xs i = (if i < length xs then Inr (xs ! i) else Inl IndexError)"

subsection \<open>Python's string operations\<close>

text \<open>
  \<open>s.split(sep)\<close>: the pieces of \<open>s\<close> between the occurrences of \<open>sep\<close>, found from the
  left and not overlapping. Python raises \<open>ValueError\<close> for an empty separator; the module
  only splits on the literals \<open>"_v"\<close> and \<open>"."\<close>.
\<close>

fun split :: "string \<Rightarrow> string \<Rightarrow> string list" where
  "split sep [] = [[]]"
| "split sep (c # cs) =
     (if prefix sep (c # cs) then [] # split sep (drop (length sep - 1) cs)
      else (case split sep cs of
              p # ps \<Rightarrow> (c # p) # ps
            | [] \<Rightarrow> [[c]]))"

text \<open>
  \<open>int(s)\<close> on a string, as CPython 3 defines it: white space is stripped at both ends,
  one sign may follow, and the rest is a run of decimal digits in which single underscores
  may separate digits. Anything else raises \<open>ValueError\<close>, and so does a run of more
  than \<open>sys.int_info.default_max_str_digits = 4300\<close> digits. The white space that \<open>int\<close>
  strips is tab, line feed, vertical tab, form feed, carriage return and space, and of
  the code points from 128 to 255 the two that are white space, 133 and 160; the
  separators 28 to 31 are not stripped.
\<close>

definition is_space :: "char \<Rightarrow> bool" where
  "is_space c = ((of_char c :: nat) \<in> {9, 10, 11, 12, 13, 32, 133, 160})"

definition is_digit :: "char \<Rightarrow> bool" where
  "is_digit c = (48 \<le> (of_char c :: nat) \<and> (of_char c :: nat) \<le> 57)"

definition digit_value :: "char \<Rightarrow> nat" where
  "digit_value c = of_char c - 48"

definition strip :: "string \<Rightarrow> string" where
  "strip s = rev (dropWhile is_space (rev (dropWhile is_space s)))"

text \<open>
  The digits of a literal: \<open>digit (["_"] digit)*\<close>. The flag says whether the character
  before was a digit.
\<close>

fun digits_ok :: "bool \<Rightarrow> string \<Rightarrow> bool" where
  "digits_ok after_digit [] = after_digit"
| "digits_ok after_digit (c # cs) =
     (if is_digit c then digits_ok True cs
      else if c = CHR ''_'' \<and> after_digit then digits_ok False cs
      else False)"

definition digits_value :: "string \<Rightarrow> nat" where
  "digits_value s = foldl (\<lambda>a c. if c = CHR ''_'' then a else 10 * a + digit_value c) 0 s"

definition max_str_digits :: nat where
  "max_str_digits = 4300"

definition int_of_str :: "string \<Rightarrow> exn + int" where
  "int_of_str s =
     (let t = strip s;
          (negative, body) =
            (case t of
               c # r \<Rightarrow> if c = CHR ''-'' then (True, r)
                        else if c = CHR ''+'' then (False, r)
                        else (False, t)
             | [] \<Rightarrow> (False, t))
      in if digits_ok False body \<and>
            length (filter (\<lambda>c. c \<noteq> CHR ''_'') body) \<le> max_str_digits
         then Inr (if negative then - int (digits_value body) else int (digits_value body))
         else Inl ValueError)"

text \<open>
  \<open>"{:03d}".format(n)\<close>: the decimal digits of \<open>n\<close>, filled with zeros on the left to three
  characters, the sign of a negative number counting as one of them.
\<close>

fun decimal :: "nat \<Rightarrow> string" where
  "decimal n =
     (if n < 10 then [char_of (48 + n)]
      else decimal (n div 10) @ [char_of (48 + n mod 10)])"

declare decimal.simps [simp del]

definition zfill :: "nat \<Rightarrow> string \<Rightarrow> string" where
  "zfill width s = replicate (width - length s) CHR ''0'' @ s"

definition format_03d :: "int \<Rightarrow> string" where
  "format_03d n =
     (if n < 0 then CHR ''-'' # zfill 2 (decimal (nat (- n)))
      else zfill 3 (decimal (nat n)))"

subsection \<open>Paths\<close>

text \<open>
  \<open>Path\<close> is a string with the operations of \<open>os.path\<close>, here with \<open>/\<close> as the separator:
  \<open>Path(p).name\<close> is what follows the last separator, \<open>Path(p).parent\<close> what precedes it
  (without trailing separators, unless it consists of separators only), and \<open>a / b\<close>
  joins two paths.
\<close>

definition path_name :: "string \<Rightarrow> string" where
  "path_name p = rev (takeWhile (\<lambda>c. c \<noteq> CHR ''/'') (rev p))"

definition path_parent :: "string \<Rightarrow> string" where
  "path_parent p =
     (let head = rev (dropWhile (\<lambda>c. c \<noteq> CHR ''/'') (rev p))
      in if head \<noteq> [] \<and> head \<noteq> replicate (length head) CHR ''/''
         then rev (dropWhile (\<lambda>c. c = CHR ''/'') (rev head))
         else head)"

definition path_join :: "string \<Rightarrow> string \<Rightarrow> string" where
  "path_join a b =
     (if b \<noteq> [] \<and> hd b = CHR ''/'' then b
      else if a = [] \<or> last a = CHR ''/'' then a @ b
      else a @ CHR ''/'' # b)"

subsection \<open>The host application\<close>

text \<open>
  What the module calls in \<open>pymel.core\<close>, over a state of the world \<open>'w\<close>:
  \<open>system.isModified()\<close>, \<open>system.sceneName()\<close>, \<open>system.saveAs(path)\<close>,
  \<open>getFileList(folder=...)\<close>, and \<open>Path.makedirs_p()\<close> of the path library. The two
  operations that write return the new world, with the exception they raised if any.
\<close>

record 'w host =
  isModified :: "'w \<Rightarrow> bool"
  sceneName :: "'w \<Rightarrow> string"
  saveAs :: "string \<Rightarrow> 'w \<Rightarrow> (exn + unit) \<times> 'w"
  makedirs_p :: "string \<Rightarrow> 'w \<Rightarrow> (exn + unit) \<times> 'w"
  getFileList :: "string \<Rightarrow> 'w \<Rightarrow> string list"

subsection \<open>The class \<open>SceneFile\<close>\<close>

record SceneFile =
  dir :: string
  descriptor :: string
  version :: int
  ext :: string

definition naming_scheme_message :: string where
  "naming_scheme_message =
     ''Incorrect naming scheme. Use this format for files: SceneName + _v + VersionNumber''"

text \<open>The \<open>else\<close> branch of \<open>__init__\<close>: the fields are read from the path of the open scene.\<close>

definition init_from_scene :: "string \<Rightarrow> exn + SceneFile" where
  "init_from_scene open_path =
     (let fullname = path_name open_path;
          nameandversion = split ''_v'' fullname
      in if length nameandversion \<noteq> 2 then Inl (RuntimeError naming_scheme_message)
         else
           (case index nameandversion 0 of Inl e \<Rightarrow> Inl e | Inr d \<Rightarrow>
            case index nameandversion 1 of Inl e \<Rightarrow> Inl e | Inr t \<Rightarrow>
            case index (split ''.'' t) 0 of Inl e \<Rightarrow> Inl e | Inr digits \<Rightarrow>
            case int_of_str digits of Inl e \<Rightarrow> Inl e | Inr v \<Rightarrow>
            case index nameandversion 1 of Inl e \<Rightarrow> Inl e | Inr t' \<Rightarrow>
            case index (split ''.'' t') 1 of Inl e \<Rightarrow> Inl e | Inr x \<Rightarrow>
              Inr \<lparr>dir = path_parent open_path, descriptor = d, version = v, ext = x\<rparr>))"

text \<open>\<open>SceneFile(dir, descriptor, version, ext)\<close>, the arguments with their defaults.\<close>

definition init :: "'w host \<Rightarrow> 'w \<Rightarrow> string \<Rightarrow> string \<Rightarrow> int \<Rightarrow> string \<Rightarrow> exn + SceneFile" where
  "init h w dir0 descriptor0 version0 ext0 =
     (if isModified h w
      then Inr \<lparr>dir = dir0, descriptor = descriptor0, version = version0, ext = ext0\<rparr>
      else init_from_scene (sceneName h w))"

definition basename :: "SceneFile \<Rightarrow> string" where
  "basename f = descriptor f @ ''_v'' @ format_03d (version f) @ ''.'' @ ext f"

definition path :: "SceneFile \<Rightarrow> string" where
  "path f = path_join (dir f) (basename f)"

text \<open>
  \<open>save\<close>: the handler catches every \<open>RuntimeError\<close> of the first \<open>saveAs\<close>, whatever its
  message, creates the directories and calls \<open>saveAs\<close> once more, outside any handler.
  The method has no \<open>return\<close> statement, so its value is \<open>None\<close>.
\<close>

definition save :: "'w host \<Rightarrow> SceneFile \<Rightarrow> 'w \<Rightarrow> (exn + string option) \<times> 'w" where
  "save h f w =
     (case saveAs h (path f) w of
        (Inr _, w1) \<Rightarrow> (Inr None, w1)
      | (Inl (RuntimeError msg), w1) \<Rightarrow>
          (case makedirs_p h (dir f) w1 of
             (Inl e, w2) \<Rightarrow> (Inl e, w2)
           | (Inr _, w2) \<Rightarrow>
               (case saveAs h (path f) w2 of
                  (Inl e, w3) \<Rightarrow> (Inl e, w3)
                | (Inr _, w3) \<Rightarrow> (Inr None, w3)))
      | (Inl e, w1) \<Rightarrow> (Inl e, w1))"

text \<open>
  One turn of the loop of \<open>increment_and_save\<close> over \<open>scenes\<close>. The state is the local
  \<open>largest_number\<close> and the object, whose \<open>version\<close> the loop assigns; both tests read the
  current \<open>self.version\<close>. An exception ends the loop and the method.
\<close>

definition scan_step :: "string \<Rightarrow> int \<times> SceneFile \<Rightarrow> exn + int \<times> SceneFile" where
  "scan_step scene st =
     (let largest_number = fst st; self = snd st
      in case index (split ''_v'' scene) 0 of Inl e \<Rightarrow> Inl e | Inr d \<Rightarrow>
         if d = descriptor self then
           (case index (split ''_v'' scene) 1 of Inl e \<Rightarrow> Inl e | Inr t \<Rightarrow>
            case index (split ''.'' t) 0 of Inl e \<Rightarrow> Inl e | Inr name \<Rightarrow>
            case int_of_str name of Inl e \<Rightarrow> Inl e | Inr val \<Rightarrow>
              (let largest_number' = (if val > version self then val else largest_number);
                   self' = (if val = version self
                            then self\<lparr>version := largest_number' + 1\<rparr> else self)
               in Inr (largest_number', self')))
         else Inr (largest_number, self))"

fun scan_scenes :: "string list \<Rightarrow> int \<times> SceneFile \<Rightarrow> exn + int \<times> SceneFile" where
  "scan_scenes [] st = Inr st"
| "scan_scenes (scene # scenes) st =
     (case scan_step scene st of
        Inl e \<Rightarrow> Inl e
      | Inr st' \<Rightarrow> scan_scenes scenes st')"

text \<open>
  \<open>increment_and_save\<close>: the names of the listed files, the loop seeded with
  \<open>largest_number = self.version\<close>, then \<open>save\<close>. The result carries the object as the
  call leaves it; the method returns \<open>None\<close>.
\<close>

definition increment_and_save ::
  "'w host \<Rightarrow> SceneFile \<Rightarrow> 'w \<Rightarrow> (exn + string option \<times> SceneFile) \<times> 'w" where
  "increment_and_save h f w =
     (let files = getFileList h (dir f) w;
          scenes = map path_name files
      in case scan_scenes scenes (version f, f) of
           Inl e \<Rightarrow> (Inl e, w)
         | Inr (largest_number, f') \<Rightarrow>
             (case save h f' w of
                (Inl e, w') \<Rightarrow> (Inl e, w')
              | (Inr r, w') \<Rightarrow> (Inr (r, f'), w')))"

subsection \<open>Recording the calls of a host\<close>

text \<open>
  A host that behaves as \<open>h\<close> does and also keeps the list of the operations that wrote,
  in the order they were called: what \<open>save\<close> asked of the host can then be read off the
  final state.
\<close>

datatype call = SaveAs string | Makedirs string

definition recording :: "'w host \<Rightarrow> ('w \<times> call list) host" where
  "recording h =
     \<lparr>isModified = (\<lambda>s. isModified h (fst s)),
      sceneName = (\<lambda>s. sceneName h (fst s)),
      saveAs = (\<lambda>p s. case saveAs h p (fst s) of (r, w') \<Rightarrow> (r, (w', snd s @ [SaveAs p]))),
      makedirs_p =
        (\<lambda>d s. case makedirs_p h d (fst s) of (r, w') \<Rightarrow> (r, (w', snd s @ [Makedirs d]))),
      getFileList = (\<lambda>d s. getFileList h d (fst s))\<rparr>"

subsection \<open>An in-memory host\<close>

text \<open>
  A host that keeps its folders and files in lists, for running the operations on
  concrete scenes. A save fails with a \<open>RuntimeError\<close> when the folder of the path does
  not exist, and also while another process holds the file (\<open>w_refusals\<close> counts the
  attempts that will still be refused). The files are listed in the order of \<open>w_files\<close>.
\<close>

record world =
  w_modified :: bool
  w_scene :: string
  w_folders :: "string list"
  w_files :: "string list"
  w_refusals :: nat

definition mem_saveAs :: "string \<Rightarrow> world \<Rightarrow> (exn + unit) \<times> world" where
  "mem_saveAs p w =
     (if 0 < w_refusals w
      then (Inl (RuntimeError ''File is locked by another process''),
            w\<lparr>w_refusals := w_refusals w - 1\<rparr>)
      else if path_parent p \<notin> set (w_folders w)
      then (Inl (RuntimeError ''Folder does not exist''), w)
      else (Inr (),
            w\<lparr>w_files := (if p \<in> set (w_files w) then w_files w else w_files w @ [p]),
               w_scene := p, w_modified := False\<rparr>))"

definition ancestors :: "string \<Rightarrow> string list" where
  "ancestors d = map (\<lambda>i. take i d) (filter (\<lambda>i. d ! i = CHR ''/'') [1..<length d])"

definition mem_makedirs_p :: "string \<Rightarrow> world \<Rightarrow> (exn + unit) \<times> world" where
  "mem_makedirs_p d w = (Inr (), w\<lparr>w_folders := w_folders w @ ancestors d @ [d]\<rparr>)"

definition mem_getFileList :: "string \<Rightarrow> world \<Rightarrow> string list" where
  "mem_getFileList folder w =
     map path_name (filter (\<lambda>p. path_parent p = folder) (w_files w))"

definition mem_host :: "world host" where
  "mem_host = \<lparr>isModified = w_modified, sceneName = w_scene, saveAs = mem_saveAs,
                makedirs_p = mem_makedirs_p, getFileList = mem_getFileList\<rparr>"

text \<open>The scene \<open>ship_v001.ma\<close> of folder \<open>/proj\<close>, and a world that holds the given files.\<close>

definition ship :: SceneFile where
  "ship = \<lparr>dir = ''/proj'', descriptor = ''ship'', version = 1, ext = ''ma''\<rparr>"

definition proj_world :: "string list \<Rightarrow> world" where
  "proj_world fs =
     \<lparr>w_modified = False, w_scene = ''/proj/ship_v001.ma'', w_folders = [''/'', ''/proj''],
      w_files = fs, w_refusals = 0\<rparr>"

subsection \<open>The behaviour the specification describes, where it differs\<close>

text \<open>
  The specification's account of the scan, over the versions of the files of the same
  descriptor in listing order: \<open>largest_number\<close> starts at the version the object had
  before the call and is raised to each sibling version that exceeds that original
  version; a sibling version equal to \<open>self.version\<close> sets \<open>self.version\<close> to
  \<open>largest_number + 1\<close>. The result is the final \<open>largest_number\<close> and version.
\<close>

definition scan_spec :: "int \<Rightarrow> int list \<Rightarrow> int \<times> int" where
  "scan_spec original vs =
     foldl (\<lambda>st v.
              (let largest = (if v > original then v else fst st)
               in (largest, if v = snd st then largest + 1 else snd st)))
       (original, original) vs"

text \<open>
  The specification's account of the part of a file name after \<open>_v\<close>: it is split at its
  last dot, what precedes the dot is the version and what follows it the extension, and
  a part that is not \<open>integer.extension\<close> fails as a wrong naming scheme does.
\<close>

definition version_and_ext_spec :: "string \<Rightarrow> exn + int \<times> string" where
  "version_and_ext_spec t =
     (if CHR ''.'' \<notin> set t then Inl (RuntimeError naming_scheme_message)
      else
        (let before = rev (tl (dropWhile (\<lambda>c. c \<noteq> CHR ''.'') (rev t)));
             after = rev (takeWhile (\<lambda>c. c \<noteq> CHR ''.'') (rev t))
         in case int_of_str before of
              Inl e \<Rightarrow> Inl (RuntimeError naming_scheme_message)
            | Inr v \<Rightarrow> Inr (v, after)))"

section \<open>Properties\<close>

subsection \<open>Splitting\<close>

lemma split_not_Nil: "split sep s \<noteq> []"
  by (induction s) (auto split: list.splits)

lemma split_no_sep:
  assumes "sep \<noteq> []"
  shows "\<not> sublist sep s \<Longrightarrow> split sep s = [s]"
proof (induction s)
  case Nil
  then show ?case by simp
next
  case (Cons c cs)
  from Cons.prems have np: "\<not> prefix sep (c # cs)" and ns: "\<not> sublist sep cs"
    using assms by (auto simp: sublist_Cons_right)
  from Cons.IH [OF ns] np show ?case by simp
qed

lemma sublist_v_Cons:
  "sublist ''_v'' (c # cs) \<longleftrightarrow> (c = CHR ''_'' \<and> (\<exists>r. cs = CHR ''v'' # r)) \<or> sublist ''_v'' cs"
  by (cases cs) (auto simp: sublist_Cons_right)

lemma split_v_append:
  "\<not> sublist ''_v'' d \<Longrightarrow> split ''_v'' (d @ ''_v'' @ r) = d # split ''_v'' r"
proof (induction d)
  case Nil
  then show ?case by simp
next
  case (Cons c cs)
  from Cons.prems have ns: "\<not> sublist ''_v'' cs"
    and nh: "\<not> (c = CHR ''_'' \<and> (\<exists>r. cs = CHR ''v'' # r))"
    by (simp_all add: sublist_v_Cons)
  have np: "\<not> prefix ''_v'' (c # cs @ ''_v'' @ r)"
    using nh by (cases cs) auto
  from Cons.IH [OF ns] np show ?case by simp
qed

lemma no_underscore_sublist_v:
  "CHR ''_'' \<notin> set a \<Longrightarrow> sublist ''_v'' (a @ b) \<longleftrightarrow> sublist ''_v'' b"
  by (induction a) (auto simp: sublist_v_Cons)

lemma split_char:
  "split [c] t =
     takeWhile (\<lambda>x. x \<noteq> c) t #
       (if c \<in> set t then split [c] (tl (dropWhile (\<lambda>x. x \<noteq> c) t)) else [])"
proof (induction t)
  case Nil
  show ?case by simp
next
  case (Cons x xs)
  show ?case
  proof (cases "x = c")
    case True
    then show ?thesis by simp
  next
    case False
    with Cons show ?thesis by (auto split: list.splits)
  qed
qed

subsection \<open>Reading and writing integers\<close>

lemma is_digit_char_of: "(k::nat) < 10 \<Longrightarrow> is_digit (char_of (48 + k))"
  by (simp add: is_digit_def)

lemma digit_value_char_of: "(k::nat) < 10 \<Longrightarrow> digit_value (char_of (48 + k)) = k"
  by (simp add: digit_value_def)

lemma is_digit_zero: "is_digit CHR ''0''"
  by (simp add: is_digit_def)

lemma is_digit_not_special:
  assumes "is_digit c"
  shows "c \<noteq> CHR ''_''" "c \<noteq> CHR ''.''" "c \<noteq> CHR ''-''" "c \<noteq> CHR ''+''" "\<not> is_space c"
  using assms by (auto simp: is_digit_def is_space_def)

lemma decimal_digits: "\<forall>c \<in> set (decimal n). is_digit c"
proof (induction n rule: decimal.induct)
  case (1 n)
  show ?case
  proof (cases "n < 10")
    case True
    then show ?thesis by (subst decimal.simps) (simp add: is_digit_char_of)
  next
    case False
    with 1 show ?thesis by (subst decimal.simps) (simp add: is_digit_char_of)
  qed
qed

lemma decimal_not_Nil: "decimal n \<noteq> []"
  by (subst decimal.simps) simp

lemma digits_value_snoc:
  "c \<noteq> CHR ''_'' \<Longrightarrow> digits_value (s @ [c]) = 10 * digits_value s + digit_value c"
  by (simp add: digits_value_def)

lemma digits_value_decimal: "digits_value (decimal n) = n"
proof (induction n rule: decimal.induct)
  case (1 n)
  show ?case
  proof (cases "n < 10")
    case True
    then have "char_of (48 + n) \<noteq> CHR ''_''"
      using is_digit_not_special(1) [OF is_digit_char_of [of n]] by simp
    with True show ?thesis
      by (subst decimal.simps) (simp add: digits_value_def digit_value_char_of)
  next
    case False
    have "char_of (48 + n mod 10) \<noteq> CHR ''_''"
      using is_digit_not_special(1) [OF is_digit_char_of [of "n mod 10"]] by simp
    with False 1 show ?thesis
      by (subst decimal.simps) (simp add: digits_value_snoc digit_value_char_of)
  qed
qed

lemma digits_value_zeros: "digits_value (replicate k CHR ''0'' @ s) = digits_value s"
proof -
  have "foldl (\<lambda>a c. if c = CHR ''_'' then a else 10 * a + digit_value c) 0
          (replicate k CHR ''0'') = 0"
    by (induction k) (simp_all add: digit_value_def)
  then show ?thesis by (simp add: digits_value_def)
qed

lemma digits_ok_all_digits:
  "\<forall>c \<in> set s. is_digit c \<Longrightarrow> digits_ok b s = (b \<or> s \<noteq> [])"
  by (induction s arbitrary: b) auto

lemma strip_no_space: "\<forall>c \<in> set s. \<not> is_space c \<Longrightarrow> strip s = s"
proof -
  assume a: "\<forall>c \<in> set s. \<not> is_space c"
  have "dropWhile is_space s = s" using a by (cases s) auto
  moreover have "dropWhile is_space (rev s) = rev s" using a by (cases "rev s") auto
  ultimately show ?thesis by (simp add: strip_def)
qed

lemma length_decimal: "0 < k \<Longrightarrow> n < 10 ^ k \<Longrightarrow> length (decimal n) \<le> k"
proof (induction n arbitrary: k rule: decimal.induct)
  case (1 n)
  show ?case
  proof (cases "n < 10")
    case True
    with 1(2) show ?thesis by (subst decimal.simps) simp
  next
    case False
    with 1(2,3) have k: "1 < k" by (cases "k = 1") auto
    then obtain j where j: "k = Suc j" "0 < j" by (cases k) auto
    from 1(3) j have "n div 10 < 10 ^ j" by (simp add: less_mult_imp_div_less mult.commute)
    from 1(1) [OF False j(2) this] False j show ?thesis
      by (subst decimal.simps) simp
  qed
qed

lemma int_of_str_digits:
  assumes "\<forall>c \<in> set s. is_digit c" and "s \<noteq> []" and "length s \<le> max_str_digits"
  shows "int_of_str s = Inr (int (digits_value s))"
proof -
  have st: "strip s = s"
    using assms(1) by (intro strip_no_space) (auto dest: is_digit_not_special(5))
  obtain c r where s: "s = c # r" using assms(2) by (cases s) auto
  with assms(1) have "is_digit c" by simp
  then have c: "c \<noteq> CHR ''-''" "c \<noteq> CHR ''+''" by (auto dest: is_digit_not_special)
  have ok: "digits_ok False s" using assms by (simp add: digits_ok_all_digits)
  have n: "length (filter (\<lambda>c. c \<noteq> CHR ''_'') s) \<le> max_str_digits"
    using length_filter_le assms(3) by (rule order_trans)
  have "int_of_str (c # r) = Inr (int (digits_value (c # r)))"
    using st c ok n unfolding s int_of_str_def
    by (simp del: digits_ok.simps filter.simps)
  then show ?thesis by (simp add: s)
qed

lemma format_03d_digits: "0 \<le> n \<Longrightarrow> \<forall>c \<in> set (format_03d n). is_digit c"
  using decimal_digits by (auto simp: format_03d_def zfill_def is_digit_zero)

lemma int_of_str_format_03d:
  assumes "0 \<le> n" and "n \<le> 999"
  shows "int_of_str (format_03d n) = Inr n"
proof -
  have ne: "format_03d n \<noteq> []"
    using assms(1) by (simp add: format_03d_def zfill_def decimal_not_Nil)
  have "nat n < 10 ^ 3" using assms by simp
  from length_decimal [OF _ this] have "length (decimal (nat n)) \<le> 3" by simp
  then have le: "length (format_03d n) \<le> max_str_digits"
    using assms(1) by (simp add: format_03d_def zfill_def max_str_digits_def)
  have "digits_value (format_03d n) = nat n"
    using assms(1)
    by (simp add: format_03d_def zfill_def digits_value_zeros digits_value_decimal)
  with int_of_str_digits [OF format_03d_digits [OF assms(1)] ne le] assms(1)
  show ?thesis by simp
qed

lemma int_of_str_error: "int_of_str s = Inl e \<Longrightarrow> e = ValueError"
  by (auto simp: int_of_str_def Let_def split: if_splits prod.splits)

lemma index_error: "index xs i = Inl e \<Longrightarrow> e = IndexError"
  by (auto simp: index_def split: if_splits)

subsection \<open>The loop of \<open>increment_and_save\<close>\<close>

lemma index_split_0: "index (split sep s) 0 = Inr (hd (split sep s))"
  using split_not_Nil [of sep s] by (cases "split sep s") (simp_all add: index_def)

lemma scan_step_other:
  "index (split ''_v'' scene) 0 \<noteq> Inr (descriptor (snd st)) \<Longrightarrow> scan_step scene st = Inr st"
  by (simp add: scan_step_def index_split_0)

lemma scan_step_descriptor:
  "scan_step scene st = Inr st' \<Longrightarrow> descriptor (snd st') = descriptor (snd st)"
  by (auto simp: scan_step_def Let_def split: sum.splits if_splits)

lemma scan_step_bounds:
  assumes "scan_step scene (largest, g) = Inr (largest', g')"
    and "b \<le> largest" and "b \<le> version g" and "version g \<le> largest + 1"
  shows "b \<le> largest' \<and> b \<le> version g' \<and> version g' \<le> largest' + 1 \<and> version g \<le> version g'"
  using assms by (auto simp: scan_step_def Let_def split: sum.splits if_splits)

lemma scan_scenes_bounds:
  "scan_scenes scenes (largest, g) = Inr (largest', g') \<Longrightarrow>
   b \<le> largest \<Longrightarrow> b \<le> version g \<Longrightarrow> version g \<le> largest + 1 \<Longrightarrow>
   b \<le> largest' \<and> b \<le> version g' \<and> version g' \<le> largest' + 1 \<and> version g \<le> version g'"
proof (induction scenes arbitrary: largest g)
  case Nil
  then show ?case by simp
next
  case (Cons scene scenes)
  from Cons.prems(1) obtain l1 g1 where
    step: "scan_step scene (largest, g) = Inr (l1, g1)"
    and rest: "scan_scenes scenes (l1, g1) = Inr (largest', g')"
    by (auto split: sum.splits)
  from scan_step_bounds [OF step Cons.prems(2-4)]
  have b1: "b \<le> l1" "b \<le> version g1" "version g1 \<le> l1 + 1" "version g \<le> version g1"
    by simp_all
  from Cons.IH [OF rest b1(1-3)] b1(4) show ?case by simp
qed

lemma scan_scenes_filter:
  "scan_scenes (filter (\<lambda>s. index (split ''_v'' s) 0 = Inr (descriptor (snd st))) xs) st =
   scan_scenes xs st"
proof (induction xs arbitrary: st)
  case Nil
  show ?case by simp
next
  case (Cons x xs)
  show ?case
  proof (cases "index (split ''_v'' x) 0 = Inr (descriptor (snd st))")
    case False
    with Cons [of st] show ?thesis by (simp add: scan_step_other)
  next
    case True
    show ?thesis
    proof (cases "scan_step x st")
      case (Inl e)
      with True show ?thesis by simp
    next
      case (Inr st')
      from scan_step_descriptor [OF Inr] Cons [of st'] True Inr show ?thesis by simp
    qed
  qed
qed

text \<open>
  Claim C10. \<open>increment_and_save\<close> never decreases the stored version: whenever the
  loop over the listed scenes ends without an exception, the version the object then has
  (the one that is saved) is at least the version it had before the call.
\<close>

theorem scan_never_decreases_version:
  assumes "scan_scenes scenes (version f, f) = Inr (largest_number, f')"
  shows "version f \<le> version f'"
  using scan_scenes_bounds [OF assms, of "version f"] by simp

text \<open>
  The listing \<open>ship_v002.ma, ship_v001.ma\<close> for the scene \<open>ship\<close> at version 1: the loop
  ends with version 3.
\<close>

theorem scan_never_decreases_version_witness:
  "scan_scenes [''ship_v002.ma'', ''ship_v001.ma''] (version ship, ship) =
     Inr (2, ship\<lparr>version := 3\<rparr>) \<and>
   version ship \<le> version (ship\<lparr>version := 3\<rparr>)"
proof -
  have h: "scan_scenes [''ship_v002.ma'', ''ship_v001.ma''] (version ship, ship) =
     Inr (2, ship\<lparr>version := 3\<rparr>)" by code_simp
  from h scan_never_decreases_version [OF h] show ?thesis by simp
qed

text \<open>
  Claim C9. Files whose descriptor part (\<open>scene.split("_v")[0]\<close>) differs from
  \<open>self.descriptor\<close> never influence the loop: two listings that hold the same files of
  this descriptor, in the same order, give the same outcome, whatever other files they
  hold and whatever the version numbers of those.
\<close>

theorem other_descriptors_do_not_influence:
  assumes "filter (\<lambda>s. index (split ''_v'' s) 0 = Inr (descriptor f)) xs =
           filter (\<lambda>s. index (split ''_v'' s) 0 = Inr (descriptor f)) ys"
  shows "scan_scenes xs (version f, f) = scan_scenes ys (version f, f)"
proof -
  have "scan_scenes xs (version f, f) =
        scan_scenes (filter (\<lambda>s. index (split ''_v'' s) 0 = Inr (descriptor f)) xs) (version f, f)"
    using scan_scenes_filter [of "(version f, f)" xs] by simp
  also have "\<dots> =
        scan_scenes (filter (\<lambda>s. index (split ''_v'' s) 0 = Inr (descriptor f)) ys) (version f, f)"
    by (simp only: assms)
  also have "\<dots> = scan_scenes ys (version f, f)"
    using scan_scenes_filter [of "(version f, f)" ys] by simp
  finally show ?thesis .
qed

text \<open>
  Two listings that differ in the files \<open>car_v001.ma\<close>, \<open>car_v900.ma\<close> and \<open>notes.txt\<close> only.
\<close>

theorem other_descriptors_do_not_influence_witness:
  "scan_scenes [''car_v001.ma'', ''ship_v002.ma'', ''ship_v001.ma''] (version ship, ship) =
   scan_scenes [''ship_v002.ma'', ''notes.txt'', ''ship_v001.ma'', ''car_v900.ma''] (version ship, ship)"
proof -
  have h: "filter (\<lambda>s. index (split ''_v'' s) 0 = Inr (descriptor ship))
             [''car_v001.ma'', ''ship_v002.ma'', ''ship_v001.ma''] =
           filter (\<lambda>s. index (split ''_v'' s) 0 = Inr (descriptor ship))
             [''ship_v002.ma'', ''notes.txt'', ''ship_v001.ma'', ''car_v900.ma'']"
    by code_simp
  from other_descriptors_do_not_influence [OF h] show ?thesis .
qed

text \<open>
  Claim C8, amended. A listed file name that does not contain \<open>_v\<close> and is not equal to
  \<open>self.descriptor\<close> is passed over: the turn of the loop raises nothing and changes
  neither \<open>largest_number\<close> nor the object.
\<close>

theorem scan_step_without_separator:
  assumes "\<not> sublist ''_v'' scene" and "scene \<noteq> descriptor self"
  shows "scan_step scene (largest_number, self) = Inr (largest_number, self)"
proof -
  have "split ''_v'' scene = [scene]" using assms(1) by (simp add: split_no_sep)
  with assms(2) show ?thesis by (simp add: scan_step_def index_def)
qed

text \<open>
  The file \<open>notes.txt\<close> in the folder of the scene \<open>ship\<close>.
\<close>

theorem scan_step_without_separator_witness:
  "\<not> sublist ''_v'' ''notes.txt'' \<and> ''notes.txt'' \<noteq> descriptor ship \<and>
   scan_step ''notes.txt'' (7, ship) = Inr (7, ship)"
proof -
  have h1: "\<not> sublist ''_v'' ''notes.txt''" by code_simp
  have h2: "''notes.txt'' \<noteq> descriptor ship" by code_simp
  from h1 h2 scan_step_without_separator [OF h1 h2, of 7] show ?thesis by simp
qed

text \<open>
  Claim C8 as stated fails for a file that is named as the descriptor is: \<open>ship\<close> does not
  contain \<open>_v\<close>, its descriptor part is the whole name, and \<open>scene.split("_v")[1]\<close> raises
  \<open>IndexError\<close>.
\<close>

theorem scan_step_without_separator_counterexample:
  "\<not> sublist ''_v'' ''ship'' \<and> scan_step ''ship'' (1, ship) = Inl IndexError"
  by code_simp

text \<open>
  Claim C2. The claim is that \<open>largest_number\<close>, seeded at \<open>self.version\<close>, is raised to
  every sibling version that exceeds the version the object had before the call, and
  that a sibling version equal to \<open>self.version\<close> sets it to \<open>largest_number + 1\<close>. For the
  scene \<open>ship\<close> at version 1 with \<open>ship_v001.ma, ship_v002.ma\<close> listed in this order, that
  gives \<open>largest_number = 2\<close> and version 3. The loop compares with the
  \<open>self.version\<close> it has just assigned: the sibling 2 exceeds the original version, yet
  \<open>largest_number\<close> stays 1 and the version ends as 2.
\<close>

theorem scan_scenes_largest_number_not_raised:
  "scan_scenes [''ship_v001.ma'', ''ship_v002.ma''] (version ship, ship) =
     Inr (1, ship\<lparr>version := 2\<rparr>) \<and>
   scan_spec (version ship) [1, 2] = (2, 3)"
  by code_simp

text \<open>
  Claim C1. For the scene \<open>ship\<close> at version 1 and a folder that holds \<open>ship_v001.ma\<close>
  and \<open>ship_v002.ma\<close>, the claim is that version 3 is saved in whatever order the host
  lists the two files. Listed as \<open>ship_v001.ma, ship_v002.ma\<close> the method saves version 2,
  over the existing file; listed the other way round it saves version 3.
\<close>

theorem increment_and_save_listing_order:
  "increment_and_save (recording mem_host) ship
     (proj_world [''/proj/ship_v001.ma'', ''/proj/ship_v002.ma''], []) =
     (Inr (None, ship\<lparr>version := 2\<rparr>),
      (proj_world [''/proj/ship_v001.ma'', ''/proj/ship_v002.ma''])
        \<lparr>w_scene := ''/proj/ship_v002.ma''\<rparr>,
      [SaveAs ''/proj/ship_v002.ma'']) \<and>
   increment_and_save (recording mem_host) ship
     (proj_world [''/proj/ship_v002.ma'', ''/proj/ship_v001.ma''], []) =
     (Inr (None, ship\<lparr>version := 3\<rparr>),
      (proj_world [''/proj/ship_v002.ma'', ''/proj/ship_v001.ma'', ''/proj/ship_v003.ma''])
        \<lparr>w_scene := ''/proj/ship_v003.ma''\<rparr>,
      [SaveAs ''/proj/ship_v003.ma''])"
  by code_simp

subsection \<open>The constructor\<close>

lemma init_from_scene_RuntimeError:
  "init_from_scene p = Inl (RuntimeError msg) \<longleftrightarrow>
     length (split ''_v'' (path_name p)) \<noteq> 2 \<and> msg = naming_scheme_message"
  by (auto simp: init_from_scene_def Let_def split: sum.splits
           dest: int_of_str_error index_error)

text \<open>
  Claim C6. When the scene of the host is not modified, the constructor raises the
  \<open>RuntimeError\<close> of the naming scheme if and only if splitting the name of the open file
  on \<open>_v\<close> does not give exactly two parts; it raises no other \<open>RuntimeError\<close>.
\<close>

theorem init_naming_scheme_error:
  assumes "\<not> isModified h w"
  shows "(init h w dir0 descriptor0 version0 ext0 = Inl (RuntimeError naming_scheme_message)) =
           (length (split ''_v'' (path_name (sceneName h w))) \<noteq> 2) \<and>
         (\<exists>msg. init h w dir0 descriptor0 version0 ext0 = Inl (RuntimeError msg)) =
           (length (split ''_v'' (path_name (sceneName h w))) \<noteq> 2)"
  using assms by (simp add: init_def init_from_scene_RuntimeError)

text \<open>
  The open file \<open>/proj/scene.ma\<close>, whose name has no \<open>_v\<close>.
\<close>

theorem init_naming_scheme_error_witness:
  "\<not> isModified mem_host ((proj_world [])\<lparr>w_scene := ''/proj/scene.ma''\<rparr>) \<and>
   init mem_host ((proj_world [])\<lparr>w_scene := ''/proj/scene.ma''\<rparr>) [] ''main'' 1 ''ma'' =
     Inl (RuntimeError naming_scheme_message)"
proof -
  have h: "\<not> isModified mem_host ((proj_world [])\<lparr>w_scene := ''/proj/scene.ma''\<rparr>)"
    by code_simp
  have l: "length (split ''_v''
             (path_name (sceneName mem_host ((proj_world [])\<lparr>w_scene := ''/proj/scene.ma''\<rparr>)))) \<noteq> 2"
    by code_simp
  from h l init_naming_scheme_error [OF h, of "[]" "''main''" 1 "''ma''"] show ?thesis by simp
qed

lemma split_char_hd: "hd (split [c] t) = takeWhile (\<lambda>x. x \<noteq> c) t"
  by (subst split_char) simp

lemma split_dot_second:
  "index (split ''.'' t) (Suc 0) =
     (if CHR ''.'' \<in> set t
      then Inr (takeWhile (\<lambda>c. c \<noteq> CHR ''.'') (tl (dropWhile (\<lambda>c. c \<noteq> CHR ''.'') t)))
      else Inl IndexError)"
proof (cases "CHR ''.'' \<in> set t")
  case True
  define r where "r = tl (dropWhile (\<lambda>c. c \<noteq> CHR ''.'') t)"
  have e: "split ''.'' t = takeWhile (\<lambda>c. c \<noteq> CHR ''.'') t # split ''.'' r"
    using split_char [of "CHR ''.''" t] True by (simp add: r_def)
  have "split ''.'' r = hd (split ''.'' r) # tl (split ''.'' r)"
    using split_not_Nil [of "''.''" r] by simp
  then have "split ''.'' r = takeWhile (\<lambda>c. c \<noteq> CHR ''.'') r # tl (split ''.'' r)"
    by (simp only: split_char_hd)
  then have "index (split ''.'' t) (Suc 0) = Inr (takeWhile (\<lambda>c. c \<noteq> CHR ''.'') r)"
    unfolding e index_def by (metis length_Cons nth_Cons_0 nth_Cons_Suc zero_less_Suc Suc_less_eq)
  with True show ?thesis by (simp add: r_def)
next
  case False
  then have "split ''.'' t = [takeWhile (\<lambda>c. c \<noteq> CHR ''.'') t]"
    using split_char [of "CHR ''.''" t] by simp
  with False show ?thesis by (simp add: index_def)
qed

lemma split_dot_first: "index (split ''.'' t) 0 = Inr (takeWhile (\<lambda>c. c \<noteq> CHR ''.'') t)"
  using split_char_hd [of "CHR ''.''" t] by (simp add: index_split_0)

lemma init_from_scene_two_parts:
  assumes "split ''_v'' (path_name p) = [d, t]"
  shows "init_from_scene p =
           (case int_of_str (takeWhile (\<lambda>c. c \<noteq> CHR ''.'') t) of
              Inl e \<Rightarrow> Inl ValueError
            | Inr v \<Rightarrow>
                if CHR ''.'' \<notin> set t then Inl IndexError
                else Inr \<lparr>dir = path_parent p, descriptor = d, version = v,
                          ext = takeWhile (\<lambda>c. c \<noteq> CHR ''.'')
                                  (tl (dropWhile (\<lambda>c. c \<noteq> CHR ''.'') t))\<rparr>)"
proof -
  have i: "index [d, t] 0 = Inr d" "index [d, t] (Suc 0) = Inr t" by (simp_all add: index_def)
  show ?thesis
    using assms i
    by (auto simp: init_from_scene_def split_dot_first split_dot_second
             split: sum.splits dest: int_of_str_error)
qed

text \<open>
  Claim C7, amended. When the name of the open file splits on \<open>_v\<close> into exactly two
  parts and the second part has a dot, the second part is split on every dot: what
  precedes its first dot is read by \<open>int\<close> as the version, and a \<open>ValueError\<close> (not the
  \<open>RuntimeError\<close> of the naming scheme) is raised when \<open>int\<close> rejects it; otherwise what
  lies between the first dot and the second dot, or the end of the name, becomes the
  extension.
\<close>

theorem init_version_and_ext:
  assumes "split ''_v'' (path_name p) = [d, t]" and "CHR ''.'' \<in> set t"
  shows "init_from_scene p =
           (case int_of_str (takeWhile (\<lambda>c. c \<noteq> CHR ''.'') t) of
              Inl e \<Rightarrow> Inl ValueError
            | Inr v \<Rightarrow>
                Inr \<lparr>dir = path_parent p, descriptor = d, version = v,
                     ext = takeWhile (\<lambda>c. c \<noteq> CHR ''.'')
                             (tl (dropWhile (\<lambda>c. c \<noteq> CHR ''.'') t))\<rparr>)"
  using assms(2) by (simp add: init_from_scene_two_parts [OF assms(1)] split: sum.splits)

text \<open>
  The open file \<open>/proj/ship_v001.tar.gz\<close>: version 1, extension \<open>tar\<close>.
\<close>

theorem init_version_and_ext_witness:
  "split ''_v'' (path_name ''/proj/ship_v001.tar.gz'') = [''ship'', ''001.tar.gz''] \<and>
   init_from_scene ''/proj/ship_v001.tar.gz'' =
     Inr \<lparr>dir = ''/proj'', descriptor = ''ship'', version = 1, ext = ''tar''\<rparr>"
proof -
  have h: "split ''_v'' (path_name ''/proj/ship_v001.tar.gz'') = [''ship'', ''001.tar.gz'']"
    by code_simp
  have v: "int_of_str (takeWhile (\<lambda>c. c \<noteq> CHR ''.'') ''001.tar.gz'') = Inr 1" by code_simp
  have pp: "path_parent ''/proj/ship_v001.tar.gz'' = ''/proj''" by code_simp
  have dot: "CHR ''.'' \<in> set ''001.tar.gz''" by code_simp
  from h init_version_and_ext [OF h dot] v pp show ?thesis by simp
qed

text \<open>
  Claim C7 as stated fails. Split at its last dot, \<open>001.tar.gz\<close> has \<open>001.tar\<close> before the
  dot, which is no integer, yet the constructor accepts the file with version 1 and
  extension \<open>tar\<close>; and for \<open>ship_vabc.ma\<close> the constructor raises \<open>ValueError\<close>, which is
  not the error of a wrong naming scheme.
\<close>

theorem init_version_and_ext_counterexample:
  "init_from_scene ''/proj/ship_v001.tar.gz'' =
     Inr \<lparr>dir = ''/proj'', descriptor = ''ship'', version = 1, ext = ''tar''\<rparr> \<and>
   version_and_ext_spec ''001.tar.gz'' = Inl (RuntimeError naming_scheme_message) \<and>
   init_from_scene ''/proj/ship_vabc.ma'' = Inl ValueError \<and>
   version_and_ext_spec ''abc.ma'' = Inl (RuntimeError naming_scheme_message)"
  by code_simp

lemma split_v_basename:
  assumes "\<not> sublist ''_v'' (descriptor f)" and "0 \<le> version f"
    and "\<not> sublist ''_v'' (ext f)"
  shows "split ''_v'' (basename f) = [descriptor f, format_03d (version f) @ ''.'' @ ext f]"
proof -
  have "CHR ''_'' \<notin> set (format_03d (version f) @ ''.'')"
    using format_03d_digits [OF assms(2)] by (auto dest: is_digit_not_special(1))
  from no_underscore_sublist_v [OF this, of "ext f"] assms(3)
  have "\<not> sublist ''_v'' (format_03d (version f) @ ''.'' @ ext f)" by simp
  then have "split ''_v'' (format_03d (version f) @ ''.'' @ ext f) =
               [format_03d (version f) @ ''.'' @ ext f]"
    by (intro split_no_sep) simp_all
  with split_v_append [OF assms(1), of "format_03d (version f) @ ''.'' @ ext f"]
  show ?thesis by (simp add: basename_def)
qed

lemma format_03d_before_dot:
  assumes "0 \<le> n"
  shows "takeWhile (\<lambda>c. c \<noteq> CHR ''.'') (format_03d n @ ''.'' @ e) = format_03d n"
    and "dropWhile (\<lambda>c. c \<noteq> CHR ''.'') (format_03d n @ ''.'' @ e) = ''.'' @ e"
proof -
  have nd: "\<And>c. c \<in> set (format_03d n) \<Longrightarrow> c \<noteq> CHR ''.''"
    using format_03d_digits [OF assms] by (auto dest: is_digit_not_special(2))
  show "takeWhile (\<lambda>c. c \<noteq> CHR ''.'') (format_03d n @ ''.'' @ e) = format_03d n"
    using nd by (simp add: takeWhile_append2)
  show "dropWhile (\<lambda>c. c \<noteq> CHR ''.'') (format_03d n @ ''.'' @ e) = ''.'' @ e"
    using nd by (simp add: dropWhile_append2)
qed

text \<open>
  Claim C3, amended. For a descriptor that does not contain \<open>_v\<close>, a version from 1 to
  999 and an extension that contains neither a dot nor \<open>_v\<close>: when the open file of
  an unmodified scene is named \<open>basename\<close> of these three, the constructor recovers
  exactly the descriptor, the version and the extension.
\<close>

theorem init_basename_roundtrip:
  assumes "\<not> isModified h w"
    and "path_name (sceneName h w) = basename f"
    and "\<not> sublist ''_v'' (descriptor f)"
    and "1 \<le> version f" and "version f \<le> 999"
    and "CHR ''.'' \<notin> set (ext f)"
    and "\<not> sublist ''_v'' (ext f)"
  shows "init h w dir0 descriptor0 version0 ext0 =
           Inr \<lparr>dir = path_parent (sceneName h w), descriptor = descriptor f,
                version = version f, ext = ext f\<rparr>"
proof -
  have v: "0 \<le> version f" using assms(4) by simp
  have s: "split ''_v'' (path_name (sceneName h w)) =
             [descriptor f, format_03d (version f) @ ''.'' @ ext f]"
    using split_v_basename [OF assms(3) v assms(7)] assms(2) by simp
  have e: "takeWhile (\<lambda>c. c \<noteq> CHR ''.'') (ext f) = ext f"
    using assms(6) by (auto simp: takeWhile_eq_all_conv)
  have d: "CHR ''.'' \<in> set (format_03d (version f) @ ''.'' @ ext f)" by simp
  show ?thesis
    unfolding init_def init_from_scene_two_parts [OF s] format_03d_before_dot [OF v]
      int_of_str_format_03d [OF v assms(5)]
    using assms(1) d e by simp
qed

text \<open>
  The open file \<open>/proj/ship_v001.ma\<close>; the arguments of the constructor are ignored.
\<close>

theorem init_basename_roundtrip_witness:
  "init mem_host (proj_world []) [] ''main'' 7 ''mb'' =
     Inr \<lparr>dir = ''/proj'', descriptor = ''ship'', version = 1, ext = ''ma''\<rparr>"
proof -
  have h1: "\<not> isModified mem_host (proj_world [])" by code_simp
  have h2: "path_name (sceneName mem_host (proj_world [])) = basename ship" by code_simp
  have h3: "\<not> sublist ''_v'' (descriptor ship)" by code_simp
  have h4: "1 \<le> version ship" by code_simp
  have h5: "version ship \<le> 999" by code_simp
  have h6: "CHR ''.'' \<notin> set (ext ship)" by code_simp
  have h7: "\<not> sublist ''_v'' (ext ship)" by code_simp
  have p: "path_parent (sceneName mem_host (proj_world [])) = ''/proj''" by code_simp
  have f: "descriptor ship = ''ship''" "version ship = 1" "ext ship = ''ma''"
    by (simp_all add: ship_def)
  from init_basename_roundtrip [OF h1 h2 h3 h4 h5 h6 h7, of "[]" "''main''" 7 "''mb''"] p f
  show ?thesis by simp
qed

text \<open>
  Claim C3 as stated fails for an extension that contains \<open>_v\<close>: the descriptor
  \<open>ship\<close>, version 1 and extension \<open>ma_v2\<close> give the name \<open>ship_v001.ma_v2\<close>, which splits
  on \<open>_v\<close> into three parts, and the constructor raises the error of the naming scheme.
\<close>

theorem init_basename_roundtrip_counterexample:
  "\<not> sublist ''_v'' ''ship'' \<and> CHR ''.'' \<notin> set ''ma_v2'' \<and>
   basename \<lparr>dir = ''/proj'', descriptor = ''ship'', version = 1, ext = ''ma_v2''\<rparr> =
     ''ship_v001.ma_v2'' \<and>
   path_name (sceneName mem_host ((proj_world [])\<lparr>w_scene := ''/proj/ship_v001.ma_v2''\<rparr>)) =
     ''ship_v001.ma_v2'' \<and>
   init mem_host ((proj_world [])\<lparr>w_scene := ''/proj/ship_v001.ma_v2''\<rparr>) [] ''main'' 1 ''ma'' =
     Inl (RuntimeError naming_scheme_message)"
  by code_simp

subsection \<open>Saving\<close>

text \<open>
  Claim C4, amended. \<open>save\<close> calls \<open>saveAs\<close> on \<open>path()\<close>. When that first call raises a
  \<open>RuntimeError\<close>, whatever made the host raise it, \<open>save\<close> asks for the directory and
  all its missing ancestors to be created (\<open>makedirs_p\<close>) and calls \<open>saveAs\<close> exactly once
  more; an exception of \<open>makedirs_p\<close> or of the second \<open>saveAs\<close> goes to the caller
  and nothing is tried again. A first call that succeeds, or that raises another kind of
  exception, is the only call made.
\<close>

theorem save_retries_once_after_RuntimeError:
  "save (recording h) f (w, []) =
     (case saveAs h (path f) w of
        (Inr u, w1) \<Rightarrow> (Inr None, w1, [SaveAs (path f)])
      | (Inl (RuntimeError msg), w1) \<Rightarrow>
          (case makedirs_p h (dir f) w1 of
             (Inl e, w2) \<Rightarrow> (Inl e, w2, [SaveAs (path f), Makedirs (dir f)])
           | (Inr u, w2) \<Rightarrow>
               (case saveAs h (path f) w2 of
                  (Inl e, w3) \<Rightarrow>
                    (Inl e, w3, [SaveAs (path f), Makedirs (dir f), SaveAs (path f)])
                | (Inr u, w3) \<Rightarrow>
                    (Inr None, w3, [SaveAs (path f), Makedirs (dir f), SaveAs (path f)])))
      | (Inl e, w1) \<Rightarrow> (Inl e, w1, [SaveAs (path f)]))"
  by (simp add: save_def recording_def split: prod.splits sum.splits exn.splits)

text \<open>
  Saving \<open>ship\<close> into the folder \<open>/new/shots\<close>, which does not exist: the folder and its
  ancestor \<open>/new\<close> are created and the second \<open>saveAs\<close> succeeds.
\<close>

theorem save_retries_once_after_RuntimeError_witness:
  "save (recording mem_host) (ship\<lparr>dir := ''/new/shots''\<rparr>) (proj_world [], []) =
     (Inr None,
      (proj_world [''/new/shots/ship_v001.ma''])
        \<lparr>w_scene := ''/new/shots/ship_v001.ma'',
         w_folders := [''/'', ''/proj'', ''/new'', ''/new/shots'']\<rparr>,
      [SaveAs ''/new/shots/ship_v001.ma'', Makedirs ''/new/shots'',
       SaveAs ''/new/shots/ship_v001.ma''])"
  unfolding save_retries_once_after_RuntimeError by code_simp

text \<open>
  Claim C4 as stated fails: a failure that is not a missing directory is recovered too.
  The folder \<open>/proj\<close> exists and the first \<open>saveAs\<close> is refused because the file is locked;
  \<open>save\<close> still calls \<open>makedirs_p\<close> and \<open>saveAs\<close> again, and succeeds.
\<close>

theorem save_retries_once_after_RuntimeError_counterexample:
  "path_parent (path ship) \<in> set (w_folders ((proj_world [])\<lparr>w_refusals := 1\<rparr>)) \<and>
   fst (saveAs mem_host (path ship) ((proj_world [])\<lparr>w_refusals := 1\<rparr>)) =
     Inl (RuntimeError ''File is locked by another process'') \<and>
   save (recording mem_host) ship ((proj_world [])\<lparr>w_refusals := 1\<rparr>, []) =
     (Inr None,
      (proj_world [''/proj/ship_v001.ma''])\<lparr>w_folders := [''/'', ''/proj'', ''/proj'']\<rparr>,
      [SaveAs ''/proj/ship_v001.ma'', Makedirs ''/proj'', SaveAs ''/proj/ship_v001.ma''])"
  by code_simp

lemma save_result_None: "fst (save h f w) = Inr r \<Longrightarrow> r = None"
  by (auto simp: save_def split: prod.splits sum.splits exn.splits)

text \<open>
  Claim C5. The claim is that a successful \<open>save\<close> returns the saved path, as the
  docstring of the method says. The method has no \<open>return\<close> statement: saving \<open>ship\<close>
  into the existing folder \<open>/proj\<close> succeeds and returns \<open>None\<close>, not
  \<open>/proj/ship_v001.ma\<close>.
\<close>

theorem save_returns_None:
  "save mem_host ship (proj_world []) =
     (Inr None, proj_world [''/proj/ship_v001.ma'']) \<and>
   path ship = ''/proj/ship_v001.ma''"
  by code_simp

end
